theory Spec2Isabelle
  imports Complex_Main "HOL-Library.Sublist" "HOL-Library.Multiset"
begin

section \<open>Values of the language\<close>

text \<open>
  A TypeScript \<^verbatim>\<open>number\<close> is an IEEE-754 double: a finite value, one of the two
  infinities, or NaN. Every finite double is a rational, so the finite values are modelled
  by \<open>rat\<close> (a superset of the doubles). The two zeros of IEEE-754 are one value here:
  the operators \<^verbatim>\<open>===\<close>, \<^verbatim>\<open><\<close> and \<^verbatim>\<open>>\<close>, the only ones SOLID.ts applies to
  numbers, do not tell them apart.
\<close>

datatype number = NaN | NegInfinity | Finite rat | Infinity

text \<open>\<^verbatim>\<open>x === y\<close> on numbers: false as soon as one side is NaN, equality of values otherwise.\<close>

fun strict_eq :: "number \<Rightarrow> number \<Rightarrow> bool" where
  "strict_eq NaN y = False"
| "strict_eq x NaN = False"
| "strict_eq x y = (x = y)"

text \<open>\<^verbatim>\<open>x < y\<close> on numbers: false as soon as one side is NaN, the order of the extended
  reals otherwise.\<close>

fun less_than :: "number \<Rightarrow> number \<Rightarrow> bool" where
  "less_than NaN y = False"
| "less_than x NaN = False"
| "less_than x NegInfinity = False"
| "less_than Infinity y = False"
| "less_than NegInfinity y = True"
| "less_than x Infinity = True"
| "less_than (Finite a) (Finite b) = (a < b)"

text \<open>\<^verbatim>\<open>x > y\<close> is \<^verbatim>\<open>y < x\<close>.\<close>

definition greater_than :: "number \<Rightarrow> number \<Rightarrow> bool" where
  "greater_than x y = less_than y x"

text \<open>What the code throws: \<^verbatim>\<open>new Error(message)\<close>, and the TypeError the runtime raises
  when a property is read from, or a method called on, a value that is not the expected
  object.\<close>

datatype error = Error string | TypeError

text \<open>The console: the lines \<^verbatim>\<open>console.log\<close> has written, oldest first.\<close>

type_synonym console = "string list"

definition console_log :: "string \<Rightarrow> console \<Rightarrow> console" where
  "console_log line out = out @ [line]"

section \<open>The heap\<close>

text \<open>
  Arrays and class instances are objects with identity. A heap is the list of the objects
  allocated so far; a reference is an index into it, and allocation appends. An object
  that is never mutated after its construction (a \<^verbatim>\<open>VideoGame\<close>) is kept as a value.
  Where a constructor allocates an object for one of its fields, the model allocates that
  object first and the instance after it: a program cannot observe the order of
  references, only whether two of them are the same.
\<close>

type_synonym ref = nat

definition alloc :: "'o \<Rightarrow> 'o list \<Rightarrow> ref \<times> 'o list" where
  "alloc ob h = (length h, h @ [ob])"

definition lookup :: "'o list \<Rightarrow> ref \<Rightarrow> 'o option" where
  "lookup h r = (if r < length h then Some (h ! r) else None)"

section \<open>Single responsibility: VideoGame and the stores\<close>

record VideoGame =
  name :: string
  releaseDate :: number

definition new_VideoGame :: "string \<Rightarrow> number \<Rightarrow> VideoGame" where
  "new_VideoGame n r = \<lparr>name = n, releaseDate = r\<rparr>"

definition getName :: "VideoGame \<Rightarrow> string" where
  "getName this = name this"

definition getReleaseDate :: "VideoGame \<Rightarrow> number" where
  "getReleaseDate this = releaseDate this"

text \<open>The objects of this example: an array of video games, a \<^verbatim>\<open>VideoGameStore\<close> and a
  \<^verbatim>\<open>BetterVideoGameStore\<close>, each store with its private field \<^verbatim>\<open>videoGames\<close>, a
  reference to an array.\<close>

datatype obj =
    Array "VideoGame list"
  | VideoGameStore ref
  | BetterVideoGameStore ref

type_synonym heap = "obj list"

text \<open>
  \<^verbatim>\<open>Array.prototype.filter\<close>: the length is read once, the index \<open>k\<close> runs from 0 to
  the length, an element that is present and for which the callback holds is appended to
  the new array \<open>A\<close>. The callbacks of SOLID.ts read their argument only. An array is
  a list here, so it has no holes: every index below its length is present.
\<close>

function filter_loop :: "('a \<Rightarrow> bool) \<Rightarrow> 'a list \<Rightarrow> nat \<Rightarrow> nat \<Rightarrow> 'a list \<Rightarrow> 'a list" where
  "filter_loop callbackfn O' len k A =
     (if k < len then
        (if k < length O' then
           (let kValue = O' ! k in
            if callbackfn kValue then filter_loop callbackfn O' len (k + 1) (A @ [kValue])
            else filter_loop callbackfn O' len (k + 1) A)
         else filter_loop callbackfn O' len (k + 1) A)
      else A)"
  by pat_completeness auto
termination
  by (relation "measure (\<lambda>(callbackfn, O', len, k, A). len - k)") auto

declare filter_loop.simps [simp del]

text \<open>\<^verbatim>\<open>r.filter(callbackfn)\<close> on the heap: the receiver must be an array; the result is a
  newly allocated array, and nothing else of the heap changes.\<close>

definition Array_filter :: "(VideoGame \<Rightarrow> bool) \<Rightarrow> ref \<Rightarrow> heap \<Rightarrow> error + ref \<times> heap" where
  "Array_filter callbackfn r h =
     (case lookup h r of
        Some (Array O') \<Rightarrow> Inr (alloc (Array (filter_loop callbackfn O' (length O') 0 [])) h)
      | _ \<Rightarrow> Inl TypeError)"

subsection \<open>class VideoGameStore\<close>

text \<open>\<^verbatim>\<open>new VideoGameStore(videoGames)\<close>: the field initialiser allocates an empty array, the
  constructor body then stores the reference it was given (no copy is made).\<close>

definition new_VideoGameStore :: "ref \<Rightarrow> heap \<Rightarrow> ref \<times> heap" where
  "new_VideoGameStore videoGames h =
     (let (initial, h1) = alloc (Array []) h;
          (this, h2) = alloc (VideoGameStore initial) h1
      in (this, h2[this := VideoGameStore videoGames]))"

definition getAllGamesByAge :: "ref \<Rightarrow> number \<Rightarrow> heap \<Rightarrow> error + ref \<times> heap" where
  "getAllGamesByAge this age h =
     (case lookup h this of
        Some (VideoGameStore videoGames) \<Rightarrow>
          Array_filter (\<lambda>v. strict_eq (getReleaseDate v) age) videoGames h
      | _ \<Rightarrow> Inl TypeError)"

definition getAllGamesByName :: "ref \<Rightarrow> string \<Rightarrow> heap \<Rightarrow> error + ref \<times> heap" where
  "getAllGamesByName this n h =
     (case lookup h this of
        Some (VideoGameStore videoGames) \<Rightarrow>
          Array_filter (\<lambda>v. getName v = n) videoGames h
      | _ \<Rightarrow> Inl TypeError)"

definition getAllGamesOlderThanAge :: "ref \<Rightarrow> number \<Rightarrow> heap \<Rightarrow> error + ref \<times> heap" where
  "getAllGamesOlderThanAge this age h =
     (case lookup h this of
        Some (VideoGameStore videoGames) \<Rightarrow>
          Array_filter (\<lambda>v. less_than (getReleaseDate v) age) videoGames h
      | _ \<Rightarrow> Inl TypeError)"

definition getAllGamesNewerThanAge :: "ref \<Rightarrow> number \<Rightarrow> heap \<Rightarrow> error + ref \<times> heap" where
  "getAllGamesNewerThanAge this age h =
     (case lookup h this of
        Some (VideoGameStore videoGames) \<Rightarrow>
          Array_filter (\<lambda>v. greater_than (getReleaseDate v) age) videoGames h
      | _ \<Rightarrow> Inl TypeError)"

text \<open>The collection a store holds: the array its field \<^verbatim>\<open>videoGames\<close> refers to.\<close>

definition collection_of :: "heap \<Rightarrow> ref \<Rightarrow> VideoGame list option" where
  "collection_of h this =
     (case lookup h this of
        Some (VideoGameStore videoGames) \<Rightarrow>
          (case lookup h videoGames of Some (Array C) \<Rightarrow> Some C | _ \<Rightarrow> None)
      | _ \<Rightarrow> None)"

text \<open>The four queries as data, so that a sequence of calls can be run on one store; the
  results come back in call order, and the first error ends the run as an exception
  would.\<close>

datatype query = ByAge number | ByName string | OlderThanAge number | NewerThanAge number

fun call :: "ref \<Rightarrow> query \<Rightarrow> heap \<Rightarrow> error + ref \<times> heap" where
  "call this (ByAge age) h = getAllGamesByAge this age h"
| "call this (ByName n) h = getAllGamesByName this n h"
| "call this (OlderThanAge age) h = getAllGamesOlderThanAge this age h"
| "call this (NewerThanAge age) h = getAllGamesNewerThanAge this age h"

fun calls :: "ref \<Rightarrow> query list \<Rightarrow> heap \<Rightarrow> error + ref list \<times> heap" where
  "calls this [] h = Inr ([], h)"
| "calls this (q # qs) h =
     (case call this q h of
        Inl e \<Rightarrow> Inl e
      | Inr (r, h1) \<Rightarrow>
          (case calls this qs h1 of
             Inl e \<Rightarrow> Inl e
           | Inr (rs, h2) \<Rightarrow> Inr (r # rs, h2)))"

text \<open>The records a query selects from a collection: the test its callback makes.\<close>

fun asked :: "query \<Rightarrow> VideoGame \<Rightarrow> bool" where
  "asked (ByAge age) v = (releaseDate v = age \<and> age \<noteq> NaN)"
| "asked (ByName n) v = (name v = n)"
| "asked (OlderThanAge age) v = less_than (releaseDate v) age"
| "asked (NewerThanAge age) v = less_than age (releaseDate v)"

text \<open>The example collection of the specification, in insertion order.\<close>

definition example_C :: "VideoGame list" where
  "example_C =
     [new_VideoGame ''Chrono Trigger'' (Finite 1995),
      new_VideoGame ''Doom'' (Finite 1993),
      new_VideoGame ''Doom II'' (Finite 1994)]"

subsection \<open>class VideoGameStoreGetter and class BetterVideoGameStore\<close>

text \<open>The methods of \<^verbatim>\<open>VideoGameStoreGetter\<close> take the collection as an argument and
  never read \<^verbatim>\<open>this\<close>. \<^verbatim>\<open>BetterVideoGameStore\<close> declares no method: a call on one of
  its instances runs these, with the instance as \<^verbatim>\<open>this\<close>.\<close>

definition VideoGameStoreGetter_getAllGamesByAge ::
  "ref \<Rightarrow> ref \<Rightarrow> number \<Rightarrow> heap \<Rightarrow> error + ref \<times> heap" where
  "VideoGameStoreGetter_getAllGamesByAge this collection age h =
     Array_filter (\<lambda>v. strict_eq (getReleaseDate v) age) collection h"

definition VideoGameStoreGetter_getAllGamesByName ::
  "ref \<Rightarrow> ref \<Rightarrow> string \<Rightarrow> heap \<Rightarrow> error + ref \<times> heap" where
  "VideoGameStoreGetter_getAllGamesByName this collection n h =
     Array_filter (\<lambda>v. getName v = n) collection h"

definition VideoGameStoreGetter_getAllGamesOlderThanAge ::
  "ref \<Rightarrow> ref \<Rightarrow> number \<Rightarrow> heap \<Rightarrow> error + ref \<times> heap" where
  "VideoGameStoreGetter_getAllGamesOlderThanAge this collection age h =
     Array_filter (\<lambda>v. less_than (getReleaseDate v) age) collection h"

definition VideoGameStoreGetter_getAllGamesNewerThanAge ::
  "ref \<Rightarrow> ref \<Rightarrow> number \<Rightarrow> heap \<Rightarrow> error + ref \<times> heap" where
  "VideoGameStoreGetter_getAllGamesNewerThanAge this collection age h =
     Array_filter (\<lambda>v. greater_than (getReleaseDate v) age) collection h"

text \<open>\<^verbatim>\<open>new BetterVideoGameStore(videoGames)\<close>: \<^verbatim>\<open>super()\<close> has nothing to set up, the
  field initialiser allocates an empty array, the constructor body stores the reference.\<close>

definition new_BetterVideoGameStore :: "ref \<Rightarrow> heap \<Rightarrow> ref \<times> heap" where
  "new_BetterVideoGameStore videoGames h =
     (let (initial, h1) = alloc (Array []) h;
          (this, h2) = alloc (BetterVideoGameStore initial) h1
      in (this, h2[this := BetterVideoGameStore videoGames]))"

section \<open>Liskov substitution: LivingBeing, Human and Plant\<close>

text \<open>The private fields \<^verbatim>\<open>name\<close>, \<^verbatim>\<open>age\<close>, \<^verbatim>\<open>job\<close> and \<^verbatim>\<open>color\<close> carry the name of
  their class here, since \<open>name\<close> is already a field of \<open>VideoGame\<close>. A subclass extends
  the record of its superclass.\<close>

record LivingBeing =
  LivingBeing_name :: string
  LivingBeing_age :: number

record Human = LivingBeing +
  Human_job :: string

record Plant = LivingBeing +
  Plant_color :: string

definition new_LivingBeing :: "string \<Rightarrow> number \<Rightarrow> LivingBeing" where
  "new_LivingBeing n a = \<lparr>LivingBeing_name = n, LivingBeing_age = a\<rparr>"

definition new_Human :: "string \<Rightarrow> number \<Rightarrow> string \<Rightarrow> Human" where
  "new_Human n a j = \<lparr>LivingBeing_name = n, LivingBeing_age = a, Human_job = j\<rparr>"

definition new_Plant :: "string \<Rightarrow> number \<Rightarrow> string \<Rightarrow> Plant" where
  "new_Plant n a c = \<lparr>LivingBeing_name = n, LivingBeing_age = a, Plant_color = c\<rparr>"

text \<open>A method either returns, with the console as it has left it, or throws.\<close>

definition LivingBeing_breathe :: "'a LivingBeing_scheme \<Rightarrow> console \<Rightarrow> error + console" where
  "LivingBeing_breathe this out = Inr (console_log ''I'm breathing'' out)"

definition Plant_breathe :: "Plant \<Rightarrow> console \<Rightarrow> error + console" where
  "Plant_breathe this out = Inl (Error ''I don't breathe'')"

text \<open>An instance together with its class, and the method a call of \<^verbatim>\<open>breathe()\<close> on it
  runs: the one its class declares, the inherited one otherwise.\<close>

datatype being = A_LivingBeing LivingBeing | A_Human Human | A_Plant Plant

fun breathe :: "being \<Rightarrow> console \<Rightarrow> error + console" where
  "breathe (A_LivingBeing this) out = LivingBeing_breathe this out"
| "breathe (A_Human this) out = LivingBeing_breathe this out"
| "breathe (A_Plant this) out = Plant_breathe this out"

section \<open>Dependency inversion: Student and CorrectGentleman\<close>

text \<open>The objects of this example: the two kinds of student, which have no field, and a
  \<^verbatim>\<open>CorrectGentleman\<close> with its fields \<^verbatim>\<open>name\<close> and \<^verbatim>\<open>student\<close>.\<close>

datatype dip_obj = Student | CorrectJavascriptStudent | CorrectGentleman string ref

definition new_Student :: "dip_obj list \<Rightarrow> ref \<times> dip_obj list" where
  "new_Student h = alloc Student h"

definition new_CorrectJavascriptStudent :: "dip_obj list \<Rightarrow> ref \<times> dip_obj list" where
  "new_CorrectJavascriptStudent h = alloc CorrectJavascriptStudent h"

definition Student_learn :: "console \<Rightarrow> console" where
  "Student_learn out = console_log ''I'm learning'' out"

definition CorrectJavascriptStudent_learn :: "console \<Rightarrow> console" where
  "CorrectJavascriptStudent_learn out = console_log ''I'm learning Javascript'' out"

text \<open>\<^verbatim>\<open>r.learn()\<close>: the method of the class of the object \<open>r\<close> refers to.\<close>

definition learn :: "ref \<Rightarrow> dip_obj list \<Rightarrow> console \<Rightarrow> error + console" where
  "learn r h out =
     (case lookup h r of
        Some Student \<Rightarrow> Inr (Student_learn out)
      | Some CorrectJavascriptStudent \<Rightarrow> Inr (CorrectJavascriptStudent_learn out)
      | _ \<Rightarrow> Inl TypeError)"

text \<open>The constructor of \<^verbatim>\<open>CorrectGentleman\<close> takes a student and does not use it: the
  field is set to \<^verbatim>\<open>new Student()\<close>.\<close>

definition new_CorrectGentleman :: "string \<Rightarrow> ref \<Rightarrow> dip_obj list \<Rightarrow> ref \<times> dip_obj list" where
  "new_CorrectGentleman n student h =
     (let (created, h1) = new_Student h
      in alloc (CorrectGentleman n created) h1)"

definition teach :: "ref \<Rightarrow> dip_obj list \<Rightarrow> console \<Rightarrow> error + console" where
  "teach this h out =
     (case lookup h this of
        Some (CorrectGentleman n student) \<Rightarrow> learn student h out
      | _ \<Rightarrow> Inl TypeError)"

text \<open>The statements at the end of SOLID.ts, run on an empty heap and an empty console.\<close>

definition main_program :: "error + console" where
  "main_program =
     (let (student, h1) = new_Student [];
          (studentJavascript, h2) = new_CorrectJavascriptStudent h1;
          (gentleman, h3) = new_CorrectGentleman ''Alan'' studentJavascript h2
      in teach gentleman h3 [])"

section \<open>Properties of the heap and of the filter loop\<close>

lemma filter_loop_filter:
  "k \<le> length xs \<Longrightarrow> filter_loop p xs (length xs) k acc = acc @ filter p (drop k xs)"
proof (induction "length xs - k" arbitrary: k acc)
  case 0
  then show ?case by (subst filter_loop.simps) simp
next
  case (Suc d)
  then have lt: "k < length xs" by simp
  then have dr: "drop k xs = xs ! k # drop (Suc k) xs"
    by (simp add: Cons_nth_drop_Suc)
  have d: "d = length xs - Suc k" using Suc.hyps(2) by simp
  have le: "Suc k \<le> length xs" using lt by simp
  show ?case
    using Suc.hyps(1) [OF d le] lt dr by (subst filter_loop.simps) (simp add: Let_def)
qed


lemma filter_loop_all: "filter_loop p xs (length xs) 0 [] = filter p xs"
  using filter_loop_filter [of 0 xs p "[]"] by simp

lemma Array_filter_Array:
  assumes "lookup h r = Some (Array C)"
  shows "Array_filter p r h = Inr (length h, h @ [Array (filter p C)])"
  using assms by (simp add: Array_filter_def alloc_def filter_loop_all)

lemma lookup_append: "lookup h r = Some ob \<Longrightarrow> lookup (h @ h') r = Some ob"
  by (auto simp: lookup_def nth_append split: if_splits)

lemma lookup_None: "length h \<le> r \<Longrightarrow> lookup h r = None"
  by (simp add: lookup_def)

lemma collection_ofD:
  assumes "collection_of h this = Some C"
  obtains videoGames where
    "lookup h this = Some (VideoGameStore videoGames)" "lookup h videoGames = Some (Array C)"
  using assms by (auto simp: collection_of_def split: option.splits obj.splits)

lemma collection_ofI:
  "lookup h this = Some (VideoGameStore videoGames) \<Longrightarrow> lookup h videoGames = Some (Array C)
    \<Longrightarrow> collection_of h this = Some C"
  by (simp add: collection_of_def)

lemma collection_of_append:
  assumes "collection_of h this = Some C"
  shows "collection_of (h @ h') this = Some C"
proof -
  from assms obtain a where "lookup h this = Some (VideoGameStore a)" "lookup h a = Some (Array C)"
    by (rule collection_ofD)
  then show ?thesis
    by (intro collection_ofI [where videoGames = a] lookup_append)
qed

lemma new_VideoGameStore_eq:
  "new_VideoGameStore c h = (length h + 1, h @ [Array [], VideoGameStore c])"
  by (simp add: new_VideoGameStore_def alloc_def list_update_append)

lemma new_VideoGameStore_collection:
  assumes "lookup h0 c = Some (Array C)" and "new_VideoGameStore c h0 = (this, h)"
  shows "collection_of h this = Some C"
proof -
  from assms(2) have th: "this = length h0 + 1" and h: "h = h0 @ [Array [], VideoGameStore c]"
    by (simp_all add: new_VideoGameStore_eq)
  have "lookup h this = Some (VideoGameStore c)"
    by (simp add: th h lookup_def nth_append)
  moreover have "lookup h c = Some (Array C)"
    unfolding h using assms(1) by (rule lookup_append)
  ultimately show ?thesis by (rule collection_ofI)
qed

lemma strict_eq_Finite: "strict_eq x (Finite q) = (x = Finite q)"
  by (cases x) simp_all

lemma less_than_Finite:
  "less_than x (Finite q) = (case x of Finite a \<Rightarrow> a < q | NegInfinity \<Rightarrow> True | _ \<Rightarrow> False)"
  by (cases x) simp_all

lemma Finite_less_than:
  "less_than (Finite q) x = (case x of Finite a \<Rightarrow> q < a | Infinity \<Rightarrow> True | _ \<Rightarrow> False)"
  by (cases x) simp_all

lemma getAllGamesByAge_filter:
  assumes "collection_of h this = Some C"
  shows "getAllGamesByAge this age h =
    Inr (length h, h @ [Array (filter (\<lambda>v. strict_eq (releaseDate v) age) C)])"
proof -
  from assms obtain a where "lookup h this = Some (VideoGameStore a)" "lookup h a = Some (Array C)"
    by (rule collection_ofD)
  then show ?thesis
    by (simp add: getAllGamesByAge_def getReleaseDate_def Array_filter_Array)
qed

lemma getAllGamesByName_filter:
  assumes "collection_of h this = Some C"
  shows "getAllGamesByName this n h = Inr (length h, h @ [Array (filter (\<lambda>v. name v = n) C)])"
proof -
  from assms obtain a where "lookup h this = Some (VideoGameStore a)" "lookup h a = Some (Array C)"
    by (rule collection_ofD)
  then show ?thesis
    by (simp add: getAllGamesByName_def getName_def Array_filter_Array)
qed

lemma getAllGamesOlderThanAge_filter:
  assumes "collection_of h this = Some C"
  shows "getAllGamesOlderThanAge this age h =
    Inr (length h, h @ [Array (filter (\<lambda>v. less_than (releaseDate v) age) C)])"
proof -
  from assms obtain a where "lookup h this = Some (VideoGameStore a)" "lookup h a = Some (Array C)"
    by (rule collection_ofD)
  then show ?thesis
    by (simp add: getAllGamesOlderThanAge_def getReleaseDate_def Array_filter_Array)
qed

lemma getAllGamesNewerThanAge_filter:
  assumes "collection_of h this = Some C"
  shows "getAllGamesNewerThanAge this age h =
    Inr (length h, h @ [Array (filter (\<lambda>v. less_than age (releaseDate v)) C)])"
proof -
  from assms obtain a where "lookup h this = Some (VideoGameStore a)" "lookup h a = Some (Array C)"
    by (rule collection_ofD)
  then show ?thesis
    by (simp add: getAllGamesNewerThanAge_def getReleaseDate_def greater_than_def Array_filter_Array)
qed

lemma count_list_filter:
  "count_list (filter P xs) v = (if P v then count_list xs v else 0)"
  by (induction xs) auto

lemma strict_eq_iff: "strict_eq x y = (x = y \<and> y \<noteq> NaN)"
  by (cases x; cases y) simp_all

lemma number_trichotomy:
  assumes "x \<noteq> NaN"
  shows "(less_than x (Finite q) \<and> x \<noteq> Finite q \<and> \<not> less_than (Finite q) x)
       \<or> (\<not> less_than x (Finite q) \<and> x = Finite q \<and> \<not> less_than (Finite q) x)
       \<or> (\<not> less_than x (Finite q) \<and> x \<noteq> Finite q \<and> less_than (Finite q) x)"
  using assms by (cases x) auto

lemma mset_filter3:
  assumes "\<forall>x \<in> set xs. (P x \<and> \<not> Q x \<and> \<not> S x) \<or> (\<not> P x \<and> Q x \<and> \<not> S x)
      \<or> (\<not> P x \<and> \<not> Q x \<and> S x)"
  shows "mset (filter P xs) + mset (filter Q xs) + mset (filter S xs) = mset xs"
  using assms by (induction xs) auto

lemma asked_fun:
  "asked (ByAge age) = (\<lambda>v. releaseDate v = age \<and> age \<noteq> NaN)"
  "asked (ByName n) = (\<lambda>v. name v = n)"
  "asked (OlderThanAge age) = (\<lambda>v. less_than (releaseDate v) age)"
  "asked (NewerThanAge age) = (\<lambda>v. less_than age (releaseDate v))"
  by (rule ext, simp)+

lemma call_filter:
  assumes "collection_of h this = Some C"
  shows "call this q h = Inr (length h, h @ [Array (filter (asked q) C)])"
proof (cases q)
  case (ByAge age)
  then show ?thesis
    using getAllGamesByAge_filter [OF assms, of age] by (simp add: strict_eq_iff asked_fun)
next
  case (ByName n)
  then show ?thesis using getAllGamesByName_filter [OF assms, of n] by (simp add: asked_fun)
next
  case (OlderThanAge age)
  then show ?thesis
    using getAllGamesOlderThanAge_filter [OF assms, of age] by (simp add: asked_fun)
next
  case (NewerThanAge age)
  then show ?thesis
    using getAllGamesNewerThanAge_filter [OF assms, of age] by (simp add: asked_fun)
qed

lemma calls_eq:
  assumes "collection_of h this = Some C"
  shows "calls this qs h =
    Inr ([length h ..< length h + length qs], h @ map (\<lambda>q. Array (filter (asked q) C)) qs)"
  using assms
proof (induction qs arbitrary: h)
  case Nil
  then show ?case by simp
next
  case (Cons q qs)
  let ?h1 = "h @ [Array (filter (asked q) C)]"
  have step: "call this q h = Inr (length h, ?h1)"
    using Cons.prems by (rule call_filter)
  have "collection_of ?h1 this = Some C"
    using Cons.prems by (rule collection_of_append)
  then have rest: "calls this qs ?h1 =
      Inr ([length ?h1 ..< length ?h1 + length qs],
           ?h1 @ map (\<lambda>q. Array (filter (asked q) C)) qs)"
    by (rule Cons.IH)
  have "[length h ..< length h + length (q # qs)]
      = length h # [length ?h1 ..< length ?h1 + length qs]"
    by (subst upt_rec) simp
  with step rest show ?case by simp
qed

lemma new_BetterVideoGameStore_eq:
  "new_BetterVideoGameStore c h = (length h + 1, h @ [Array [], BetterVideoGameStore c])"
  by (simp add: new_BetterVideoGameStore_def alloc_def list_update_append)

text \<open>A release date other than NaN is below, equal to or above a finite threshold, and
  only one of the three; so the three queries for a finite threshold split a collection
  without NaN between them.\<close>

lemma partition_of_comparable:
  assumes "collection_of h this = Some C" and "\<forall>v \<in> set C. releaseDate v \<noteq> NaN"
  shows "\<exists>Ro Re Rn.
      getAllGamesOlderThanAge this (Finite (of_int t)) h = Inr (length h, h @ [Array Ro])
    \<and> getAllGamesByAge this (Finite (of_int t)) h = Inr (length h, h @ [Array Re])
    \<and> getAllGamesNewerThanAge this (Finite (of_int t)) h = Inr (length h, h @ [Array Rn])
    \<and> mset Ro + mset Re + mset Rn = mset C
    \<and> set Ro \<inter> set Re = {} \<and> set Ro \<inter> set Rn = {} \<and> set Re \<inter> set Rn = {}
    \<and> (\<forall>v \<in> set C. (v \<in> set Ro \<and> v \<notin> set Re \<and> v \<notin> set Rn)
                   \<or> (v \<notin> set Ro \<and> v \<in> set Re \<and> v \<notin> set Rn)
                   \<or> (v \<notin> set Ro \<and> v \<notin> set Re \<and> v \<in> set Rn))"
proof -
  let ?q = "Finite (of_int t)"
  let ?o = "\<lambda>v. less_than (releaseDate v) ?q"
  let ?e = "\<lambda>v. releaseDate v = ?q"
  let ?n = "\<lambda>v. less_than ?q (releaseDate v)"
  have one: "\<forall>v \<in> set C. (?o v \<and> \<not> ?e v \<and> \<not> ?n v) \<or> (\<not> ?o v \<and> ?e v \<and> \<not> ?n v)
      \<or> (\<not> ?o v \<and> \<not> ?e v \<and> ?n v)"
    using assms(2) number_trichotomy by blast
  have two: "\<And>v. \<not> (?o v \<and> ?e v)" "\<And>v. \<not> (?o v \<and> ?n v)" "\<And>v. \<not> (?e v \<and> ?n v)"
  proof -
    fix v
    show "\<not> (?o v \<and> ?e v)" by (cases "releaseDate v") auto
    show "\<not> (?o v \<and> ?n v)" by (cases "releaseDate v") auto
    show "\<not> (?e v \<and> ?n v)" by (cases "releaseDate v") auto
  qed
  have older: "getAllGamesOlderThanAge this ?q h = Inr (length h, h @ [Array (filter ?o C)])"
    using assms(1) by (rule getAllGamesOlderThanAge_filter)
  have same: "getAllGamesByAge this ?q h = Inr (length h, h @ [Array (filter ?e C)])"
    using getAllGamesByAge_filter [OF assms(1), of ?q] by (simp add: strict_eq_Finite)
  have newer: "getAllGamesNewerThanAge this ?q h = Inr (length h, h @ [Array (filter ?n C)])"
    using assms(1) by (rule getAllGamesNewerThanAge_filter)
  have all: "mset (filter ?o C) + mset (filter ?e C) + mset (filter ?n C) = mset C"
    using one by (rule mset_filter3)
  have d1: "set (filter ?o C) \<inter> set (filter ?e C) = {}" using two(1) by auto
  have d2: "set (filter ?o C) \<inter> set (filter ?n C) = {}" using two(2) by auto
  have d3: "set (filter ?e C) \<inter> set (filter ?n C) = {}" using two(3) by auto
  have each: "\<forall>v \<in> set C.
        (v \<in> set (filter ?o C) \<and> v \<notin> set (filter ?e C) \<and> v \<notin> set (filter ?n C))
      \<or> (v \<notin> set (filter ?o C) \<and> v \<in> set (filter ?e C) \<and> v \<notin> set (filter ?n C))
      \<or> (v \<notin> set (filter ?o C) \<and> v \<notin> set (filter ?e C) \<and> v \<in> set (filter ?n C))"
    using one by simp
  show ?thesis
    apply (rule exI [of _ "filter ?o C"])
    apply (rule exI [of _ "filter ?e C"])
    apply (rule exI [of _ "filter ?n C"])
    apply (intro conjI)
           apply (rule older)
          apply (rule same)
         apply (rule newer)
        apply (rule all)
       apply (rule d1)
      apply (rule d2)
     apply (rule d3)
    apply (rule each)
    done
qed

lemma example_store:
  "new_VideoGameStore 0 [Array example_C] = (2, [Array example_C, Array [], VideoGameStore 0])"
  by (simp add: new_VideoGameStore_eq)

lemma example_store_holds:
  "collection_of [Array example_C, Array [], VideoGameStore 0] 2 = Some example_C"
  by (simp add: collection_of_def lookup_def)

section \<open>The queries of VideoGameStore\<close>

text \<open>
  C1. A store is constructed with the array \<open>C\<close> and asked for the games of the integer
  year \<open>m\<close>. The call returns a new array \<open>R\<close> which holds exactly the records of \<open>C\<close>
  whose release date is \<open>m\<close>: every record of \<open>R\<close> has release date \<open>m\<close>; \<open>R\<close> consists of
  the entries of \<open>C\<close> at the positions whose record has release date \<open>m\<close>, each position
  taken once and in the order of \<open>C\<close>; so \<open>R\<close> is a subsequence of \<open>C\<close>, and a record with
  release date \<open>m\<close> occurs in \<open>R\<close> as often as in \<open>C\<close>.
\<close>

theorem getAllGamesByAge_exact:
  assumes "lookup h0 c = Some (Array C)" and "new_VideoGameStore c h0 = (this, h)"
  shows "\<exists>R. getAllGamesByAge this (Finite (of_int m)) h = Inr (length h, h @ [Array R])
    \<and> (\<forall>v \<in> set R. releaseDate v = Finite (of_int m))
    \<and> R = nths C {i. i < length C \<and> releaseDate (C ! i) = Finite (of_int m)}
    \<and> R = filter (\<lambda>v. releaseDate v = Finite (of_int m)) C
    \<and> subseq R C
    \<and> (\<forall>v. releaseDate v = Finite (of_int m) \<longrightarrow> count_list R v = count_list C v)"
proof -
  let ?P = "\<lambda>v. releaseDate v = Finite (of_int m)"
  have held: "collection_of h this = Some C"
    using assms by (rule new_VideoGameStore_collection)
  have "getAllGamesByAge this (Finite (of_int m)) h = Inr (length h, h @ [Array (filter ?P C)])"
    using getAllGamesByAge_filter [OF held, of "Finite (of_int m)"]
    by (simp add: strict_eq_Finite)
  moreover have "\<forall>v \<in> set (filter ?P C). ?P v" by simp
  moreover have "filter ?P C = nths C {i. i < length C \<and> ?P (C ! i)}"
    by (rule filter_eq_nths)
  moreover have "subseq (filter ?P C) C" by (rule subseq_filter_left)
  moreover have "\<forall>v. ?P v \<longrightarrow> count_list (filter ?P C) v = count_list C v"
    by (simp add: count_list_filter)
  ultimately show ?thesis by blast
qed

theorem getAllGamesByAge_exact_witness:
  "lookup [Array example_C] 0 = Some (Array example_C)
   \<and> new_VideoGameStore 0 [Array example_C] = (2, [Array example_C, Array [], VideoGameStore 0])
   \<and> getAllGamesByAge 2 (Finite 1994) [Array example_C, Array [], VideoGameStore 0]
       = Inr (3, [Array example_C, Array [], VideoGameStore 0,
                  Array [new_VideoGame ''Doom II'' (Finite 1994)]])"
proof -
  have a: "lookup [Array example_C] 0 = Some (Array example_C)"
    by (simp add: lookup_def)
  have b: "new_VideoGameStore 0 [Array example_C] = (2, [Array example_C, Array [], VideoGameStore 0])"
    by (simp add: new_VideoGameStore_eq)
  from getAllGamesByAge_exact [OF a b, of 1994]
  obtain R where
    r: "getAllGamesByAge 2 (Finite (of_int 1994)) [Array example_C, Array [], VideoGameStore 0]
          = Inr (length [Array example_C, Array [], VideoGameStore 0],
                 [Array example_C, Array [], VideoGameStore 0] @ [Array R])"
    and f: "R = filter (\<lambda>v. releaseDate v = Finite (of_int 1994)) example_C"
    by blast
  have "R = [new_VideoGame ''Doom II'' (Finite 1994)]"
    unfolding f by (simp add: example_C_def new_VideoGame_def)
  with r have "getAllGamesByAge 2 (Finite 1994) [Array example_C, Array [], VideoGameStore 0]
       = Inr (3, [Array example_C, Array [], VideoGameStore 0,
                  Array [new_VideoGame ''Doom II'' (Finite 1994)]])"
    by simp
  then show ?thesis using a b by simp
qed

text \<open>
  C4. A store holds the array \<open>C\<close> and is asked for the games older than the integer year
  \<open>t\<close>. The call returns a new array \<open>R\<close> with exactly the records of \<open>C\<close> whose release
  date is strictly below \<open>t\<close> (a finite date below \<open>t\<close>, or minus infinity), in the order
  of \<open>C\<close>; no record of \<open>R\<close> has release date \<open>t\<close>, and a record of \<open>C\<close> with an integer
  release date \<open>k\<close> is in \<open>R\<close> exactly when \<open>k < t\<close>. On the example collection the games
  older than 1994 are Doom alone.
\<close>

theorem getAllGamesOlderThanAge_exact:
  assumes "collection_of h this = Some C"
  shows "(\<exists>R. getAllGamesOlderThanAge this (Finite (of_int t)) h = Inr (length h, h @ [Array R])
      \<and> R = filter (\<lambda>v. case releaseDate v of
                           Finite a \<Rightarrow> a < of_int t | NegInfinity \<Rightarrow> True | _ \<Rightarrow> False) C
      \<and> subseq R C
      \<and> (\<forall>v \<in> set R. releaseDate v \<noteq> Finite (of_int t))
      \<and> (\<forall>v \<in> set C. \<forall>k. releaseDate v = Finite (of_int k) \<longrightarrow> (v \<in> set R \<longleftrightarrow> k < t)))
    \<and> (case new_VideoGameStore 0 [Array example_C] of
          (store, h') \<Rightarrow> getAllGamesOlderThanAge store (Finite 1994) h')
        = Inr (3, [Array example_C, Array [], VideoGameStore 0,
                   Array [new_VideoGame ''Doom'' (Finite 1993)]])"
proof -
  let ?P = "\<lambda>v. case releaseDate v of
                  Finite a \<Rightarrow> a < of_int t | NegInfinity \<Rightarrow> True | _ \<Rightarrow> False"
  have call: "getAllGamesOlderThanAge this (Finite (of_int t)) h
      = Inr (length h, h @ [Array (filter ?P C)])"
    using getAllGamesOlderThanAge_filter [OF assms, of "Finite (of_int t)"]
    by (simp add: less_than_Finite)
  have sub: "subseq (filter ?P C) C" by (rule subseq_filter_left)
  have irr: "\<forall>v \<in> set (filter ?P C). releaseDate v \<noteq> Finite (of_int t)" by auto
  have int: "\<forall>v \<in> set C. \<forall>k. releaseDate v = Finite (of_int k) \<longrightarrow>
      (v \<in> set (filter ?P C) \<longleftrightarrow> k < t)" by simp
  have general: "\<exists>R. getAllGamesOlderThanAge this (Finite (of_int t)) h
        = Inr (length h, h @ [Array R])
      \<and> R = filter ?P C \<and> subseq R C
      \<and> (\<forall>v \<in> set R. releaseDate v \<noteq> Finite (of_int t))
      \<and> (\<forall>v \<in> set C. \<forall>k. releaseDate v = Finite (of_int k) \<longrightarrow> (v \<in> set R \<longleftrightarrow> k < t))"
    using call sub irr int by blast
  note held = example_store_holds
  have "filter (\<lambda>v. less_than (releaseDate v) (Finite 1994)) example_C
      = [new_VideoGame ''Doom'' (Finite 1993)]"
    by (simp add: example_C_def new_VideoGame_def)
  with getAllGamesOlderThanAge_filter [OF held, of "Finite 1994"]
  have "getAllGamesOlderThanAge 2 (Finite 1994) [Array example_C, Array [], VideoGameStore 0]
      = Inr (3, [Array example_C, Array [], VideoGameStore 0,
                 Array [new_VideoGame ''Doom'' (Finite 1993)]])"
    by simp
  then have example: "(case new_VideoGameStore 0 [Array example_C] of
          (store, h') \<Rightarrow> getAllGamesOlderThanAge store (Finite 1994) h')
        = Inr (3, [Array example_C, Array [], VideoGameStore 0,
                   Array [new_VideoGame ''Doom'' (Finite 1993)]])"
    by (simp add: example_store)
  from general example show ?thesis by (rule conjI)
qed

theorem getAllGamesOlderThanAge_exact_witness:
  "collection_of [VideoGameStore 1, Array example_C] 0 = Some example_C
   \<and> getAllGamesOlderThanAge 0 (Finite 1995) [VideoGameStore 1, Array example_C]
       = Inr (2, [VideoGameStore 1, Array example_C,
                  Array [new_VideoGame ''Doom'' (Finite 1993),
                         new_VideoGame ''Doom II'' (Finite 1994)]])"
proof -
  have a: "collection_of [VideoGameStore 1, Array example_C] 0 = Some example_C"
    by (simp add: collection_of_def lookup_def)
  from getAllGamesOlderThanAge_exact [OF a, of 1995]
  obtain R where
    r: "getAllGamesOlderThanAge 0 (Finite (of_int 1995)) [VideoGameStore 1, Array example_C]
          = Inr (length [VideoGameStore 1, Array example_C],
                 [VideoGameStore 1, Array example_C] @ [Array R])"
    and f: "R = filter (\<lambda>v. case releaseDate v of
                Finite a \<Rightarrow> a < of_int 1995 | NegInfinity \<Rightarrow> True | _ \<Rightarrow> False) example_C"
    by blast
  have "R = [new_VideoGame ''Doom'' (Finite 1993), new_VideoGame ''Doom II'' (Finite 1994)]"
    unfolding f by (simp add: example_C_def new_VideoGame_def)
  with r a show ?thesis by simp
qed

text \<open>
  C5. A store holds the array \<open>C\<close> and is asked for the games newer than the integer year
  \<open>t\<close>. The call returns a new array \<open>R\<close> with exactly the records of \<open>C\<close> whose release
  date is strictly above \<open>t\<close> (a finite date above \<open>t\<close>, or plus infinity), in the order of
  \<open>C\<close>; no record of \<open>R\<close> has release date \<open>t\<close>, and a record of \<open>C\<close> with an integer
  release date \<open>k\<close> is in \<open>R\<close> exactly when \<open>t < k\<close>. On the example collection the games
  newer than 1993 are Chrono Trigger and then Doom II, the order in which they were
  inserted.
\<close>

theorem getAllGamesNewerThanAge_exact:
  assumes "collection_of h this = Some C"
  shows "(\<exists>R. getAllGamesNewerThanAge this (Finite (of_int t)) h = Inr (length h, h @ [Array R])
      \<and> R = filter (\<lambda>v. case releaseDate v of
                           Finite a \<Rightarrow> of_int t < a | Infinity \<Rightarrow> True | _ \<Rightarrow> False) C
      \<and> subseq R C
      \<and> (\<forall>v \<in> set R. releaseDate v \<noteq> Finite (of_int t))
      \<and> (\<forall>v \<in> set C. \<forall>k. releaseDate v = Finite (of_int k) \<longrightarrow> (v \<in> set R \<longleftrightarrow> t < k)))
    \<and> (case new_VideoGameStore 0 [Array example_C] of
          (store, h') \<Rightarrow> getAllGamesNewerThanAge store (Finite 1993) h')
        = Inr (3, [Array example_C, Array [], VideoGameStore 0,
                   Array [new_VideoGame ''Chrono Trigger'' (Finite 1995),
                          new_VideoGame ''Doom II'' (Finite 1994)]])"
proof -
  let ?P = "\<lambda>v. case releaseDate v of
                  Finite a \<Rightarrow> of_int t < a | Infinity \<Rightarrow> True | _ \<Rightarrow> False"
  have call: "getAllGamesNewerThanAge this (Finite (of_int t)) h
      = Inr (length h, h @ [Array (filter ?P C)])"
    using getAllGamesNewerThanAge_filter [OF assms, of "Finite (of_int t)"]
    by (simp add: Finite_less_than)
  have sub: "subseq (filter ?P C) C" by (rule subseq_filter_left)
  have irr: "\<forall>v \<in> set (filter ?P C). releaseDate v \<noteq> Finite (of_int t)" by auto
  have int: "\<forall>v \<in> set C. \<forall>k. releaseDate v = Finite (of_int k) \<longrightarrow>
      (v \<in> set (filter ?P C) \<longleftrightarrow> t < k)" by simp
  have general: "\<exists>R. getAllGamesNewerThanAge this (Finite (of_int t)) h
        = Inr (length h, h @ [Array R])
      \<and> R = filter ?P C \<and> subseq R C
      \<and> (\<forall>v \<in> set R. releaseDate v \<noteq> Finite (of_int t))
      \<and> (\<forall>v \<in> set C. \<forall>k. releaseDate v = Finite (of_int k) \<longrightarrow> (v \<in> set R \<longleftrightarrow> t < k))"
    using call sub irr int by blast
  have "filter (\<lambda>v. less_than (Finite 1993) (releaseDate v)) example_C
      = [new_VideoGame ''Chrono Trigger'' (Finite 1995), new_VideoGame ''Doom II'' (Finite 1994)]"
    by (simp add: example_C_def new_VideoGame_def)
  with getAllGamesNewerThanAge_filter [OF example_store_holds, of "Finite 1993"]
  have "getAllGamesNewerThanAge 2 (Finite 1993) [Array example_C, Array [], VideoGameStore 0]
      = Inr (3, [Array example_C, Array [], VideoGameStore 0,
                 Array [new_VideoGame ''Chrono Trigger'' (Finite 1995),
                        new_VideoGame ''Doom II'' (Finite 1994)]])"
    by simp
  then have example: "(case new_VideoGameStore 0 [Array example_C] of
          (store, h') \<Rightarrow> getAllGamesNewerThanAge store (Finite 1993) h')
        = Inr (3, [Array example_C, Array [], VideoGameStore 0,
                   Array [new_VideoGame ''Chrono Trigger'' (Finite 1995),
                          new_VideoGame ''Doom II'' (Finite 1994)]])"
    by (simp add: example_store)
  from general example show ?thesis by (rule conjI)
qed

theorem getAllGamesNewerThanAge_exact_witness:
  "collection_of [VideoGameStore 1, Array example_C] 0 = Some example_C
   \<and> getAllGamesNewerThanAge 0 (Finite 1994) [VideoGameStore 1, Array example_C]
       = Inr (2, [VideoGameStore 1, Array example_C,
                  Array [new_VideoGame ''Chrono Trigger'' (Finite 1995)]])"
proof -
  have a: "collection_of [VideoGameStore 1, Array example_C] 0 = Some example_C"
    by (simp add: collection_of_def lookup_def)
  from getAllGamesNewerThanAge_exact [OF a, of 1994]
  obtain R where
    r: "getAllGamesNewerThanAge 0 (Finite (of_int 1994)) [VideoGameStore 1, Array example_C]
          = Inr (length [VideoGameStore 1, Array example_C],
                 [VideoGameStore 1, Array example_C] @ [Array R])"
    and f: "R = filter (\<lambda>v. case releaseDate v of
                Finite a \<Rightarrow> of_int 1994 < a | Infinity \<Rightarrow> True | _ \<Rightarrow> False) example_C"
    by blast
  have "R = [new_VideoGame ''Chrono Trigger'' (Finite 1995)]"
    unfolding f by (simp add: example_C_def new_VideoGame_def)
  with r a show ?thesis by simp
qed

text \<open>
  C6. A store holds the array \<open>C\<close> and is asked for the games named \<open>n\<close>. The call returns
  a new array \<open>R\<close> with exactly the records of \<open>C\<close> whose name is \<open>n\<close>, in the order of \<open>C\<close>:
  every record of \<open>R\<close> is named \<open>n\<close>, and a record whose name has \<open>n\<close> as a proper prefix, or
  contains \<open>n\<close> without being \<open>n\<close>, is not in \<open>R\<close>. On the example collection the games
  named Doom are Doom alone, without Doom II.
\<close>

theorem getAllGamesByName_exact:
  assumes "collection_of h this = Some C"
  shows "(\<exists>R. getAllGamesByName this n h = Inr (length h, h @ [Array R])
      \<and> R = filter (\<lambda>v. name v = n) C
      \<and> subseq R C
      \<and> (\<forall>v \<in> set R. name v = n)
      \<and> (\<forall>v. strict_prefix n (name v) \<longrightarrow> v \<notin> set R)
      \<and> (\<forall>v. sublist n (name v) \<and> name v \<noteq> n \<longrightarrow> v \<notin> set R))
    \<and> (case new_VideoGameStore 0 [Array example_C] of
          (store, h') \<Rightarrow> getAllGamesByName store ''Doom'' h')
        = Inr (3, [Array example_C, Array [], VideoGameStore 0,
                   Array [new_VideoGame ''Doom'' (Finite 1993)]])"
proof -
  let ?P = "\<lambda>v. name v = n"
  have call: "getAllGamesByName this n h = Inr (length h, h @ [Array (filter ?P C)])"
    using assms by (rule getAllGamesByName_filter)
  have sub: "subseq (filter ?P C) C" by (rule subseq_filter_left)
  have eq: "\<forall>v \<in> set (filter ?P C). name v = n" by simp
  have pre: "\<forall>v. strict_prefix n (name v) \<longrightarrow> v \<notin> set (filter ?P C)" by auto
  have inf: "\<forall>v. sublist n (name v) \<and> name v \<noteq> n \<longrightarrow> v \<notin> set (filter ?P C)" by simp
  have general: "\<exists>R. getAllGamesByName this n h = Inr (length h, h @ [Array R])
      \<and> R = filter ?P C \<and> subseq R C \<and> (\<forall>v \<in> set R. name v = n)
      \<and> (\<forall>v. strict_prefix n (name v) \<longrightarrow> v \<notin> set R)
      \<and> (\<forall>v. sublist n (name v) \<and> name v \<noteq> n \<longrightarrow> v \<notin> set R)"
    using call sub eq pre inf by blast
  have "filter (\<lambda>v. name v = ''Doom'') example_C = [new_VideoGame ''Doom'' (Finite 1993)]"
    by (simp add: example_C_def new_VideoGame_def)
  with getAllGamesByName_filter [OF example_store_holds, of "''Doom''"]
  have "getAllGamesByName 2 ''Doom'' [Array example_C, Array [], VideoGameStore 0]
      = Inr (3, [Array example_C, Array [], VideoGameStore 0,
                 Array [new_VideoGame ''Doom'' (Finite 1993)]])"
    by simp
  then have example: "(case new_VideoGameStore 0 [Array example_C] of
          (store, h') \<Rightarrow> getAllGamesByName store ''Doom'' h')
        = Inr (3, [Array example_C, Array [], VideoGameStore 0,
                   Array [new_VideoGame ''Doom'' (Finite 1993)]])"
    by (simp add: example_store)
  from general example show ?thesis by (rule conjI)
qed

theorem getAllGamesByName_exact_witness:
  "collection_of [VideoGameStore 1, Array example_C] 0 = Some example_C
   \<and> strict_prefix ''Doom'' (name (new_VideoGame ''Doom II'' (Finite 1994)))
   \<and> new_VideoGame ''Doom II'' (Finite 1994) \<in> set example_C
   \<and> getAllGamesByName 0 ''Doom'' [VideoGameStore 1, Array example_C]
       = Inr (2, [VideoGameStore 1, Array example_C,
                  Array [new_VideoGame ''Doom'' (Finite 1993)]])
   \<and> new_VideoGame ''Doom II'' (Finite 1994) \<notin> set [new_VideoGame ''Doom'' (Finite 1993)]"
proof -
  have a: "collection_of [VideoGameStore 1, Array example_C] 0 = Some example_C"
    by (simp add: collection_of_def lookup_def)
  have b: "strict_prefix ''Doom'' (name (new_VideoGame ''Doom II'' (Finite 1994)))"
    by (simp add: new_VideoGame_def strict_prefix_def)
  have c: "new_VideoGame ''Doom II'' (Finite 1994) \<in> set example_C"
    by (simp add: example_C_def)
  from getAllGamesByName_exact [OF a, of "''Doom''"]
  obtain R where
    r: "getAllGamesByName 0 ''Doom'' [VideoGameStore 1, Array example_C]
          = Inr (length [VideoGameStore 1, Array example_C],
                 [VideoGameStore 1, Array example_C] @ [Array R])"
    and f: "R = filter (\<lambda>v. name v = ''Doom'') example_C"
    and p: "\<forall>v. strict_prefix ''Doom'' (name v) \<longrightarrow> v \<notin> set R"
    by blast
  have e: "R = [new_VideoGame ''Doom'' (Finite 1993)]"
    unfolding f by (simp add: example_C_def new_VideoGame_def)
  from p b have "new_VideoGame ''Doom II'' (Finite 1994) \<notin> set R" by blast
  with r a b c e show ?thesis by simp
qed

text \<open>
  C2. A store holds the array \<open>C\<close>, every record of which has an integer release date,
  and \<open>t\<close> is an integer year. The games older than \<open>t\<close>, the games of \<open>t\<close> and the games
  newer than \<open>t\<close> partition \<open>C\<close>: together the three results hold every record of \<open>C\<close> as
  often as \<open>C\<close> does, no record is in two of them, and every record of \<open>C\<close> is in exactly
  one.
\<close>

theorem queries_partition:
  assumes "collection_of h this = Some C"
    and "\<forall>v \<in> set C. \<exists>k. releaseDate v = Finite (of_int k)"
  shows "\<exists>Ro Re Rn.
      getAllGamesOlderThanAge this (Finite (of_int t)) h = Inr (length h, h @ [Array Ro])
    \<and> getAllGamesByAge this (Finite (of_int t)) h = Inr (length h, h @ [Array Re])
    \<and> getAllGamesNewerThanAge this (Finite (of_int t)) h = Inr (length h, h @ [Array Rn])
    \<and> mset Ro + mset Re + mset Rn = mset C
    \<and> set Ro \<inter> set Re = {} \<and> set Ro \<inter> set Rn = {} \<and> set Re \<inter> set Rn = {}
    \<and> (\<forall>v \<in> set C. (v \<in> set Ro \<and> v \<notin> set Re \<and> v \<notin> set Rn)
                   \<or> (v \<notin> set Ro \<and> v \<in> set Re \<and> v \<notin> set Rn)
                   \<or> (v \<notin> set Ro \<and> v \<notin> set Re \<and> v \<in> set Rn))"
proof -
  have "\<forall>v \<in> set C. releaseDate v \<noteq> NaN"
  proof
    fix v
    assume "v \<in> set C"
    with assms(2) obtain k where "releaseDate v = Finite (of_int k)" by blast
    then show "releaseDate v \<noteq> NaN" by simp
  qed
  with assms(1) show ?thesis by (rule partition_of_comparable)
qed

theorem queries_partition_witness:
  "collection_of [Array example_C, Array [], VideoGameStore 0] 2 = Some example_C
   \<and> map releaseDate example_C = map (\<lambda>k. Finite (of_int k)) [1995, 1993, 1994]
   \<and> getAllGamesOlderThanAge 2 (Finite 1994) [Array example_C, Array [], VideoGameStore 0]
       = Inr (3, [Array example_C, Array [], VideoGameStore 0,
                  Array [new_VideoGame ''Doom'' (Finite 1993)]])
   \<and> getAllGamesByAge 2 (Finite 1994) [Array example_C, Array [], VideoGameStore 0]
       = Inr (3, [Array example_C, Array [], VideoGameStore 0,
                  Array [new_VideoGame ''Doom II'' (Finite 1994)]])
   \<and> getAllGamesNewerThanAge 2 (Finite 1994) [Array example_C, Array [], VideoGameStore 0]
       = Inr (3, [Array example_C, Array [], VideoGameStore 0,
                  Array [new_VideoGame ''Chrono Trigger'' (Finite 1995)]])
   \<and> mset [new_VideoGame ''Doom'' (Finite 1993)] + mset [new_VideoGame ''Doom II'' (Finite 1994)]
       + mset [new_VideoGame ''Chrono Trigger'' (Finite 1995)] = mset example_C"
proof -
  let ?h = "[Array example_C, Array [], VideoGameStore 0]"
  note a = example_store_holds
  have b': "map releaseDate example_C = map (\<lambda>k. Finite (of_int k)) [1995, 1993, 1994]"
    by (simp add: example_C_def new_VideoGame_def)
  have b: "\<forall>v \<in> set example_C. \<exists>k. releaseDate v = Finite (of_int k)"
  proof
    fix v
    assume "v \<in> set example_C"
    then have "releaseDate v \<in> set (map releaseDate example_C)" by simp
    then have "releaseDate v \<in> set (map (\<lambda>k. Finite (of_int k)) [1995, 1993, 1994])"
      by (simp only: b')
    then show "\<exists>k. releaseDate v = Finite (of_int k)" by auto
  qed
  have fo: "filter (\<lambda>v. less_than (releaseDate v) (Finite 1994)) example_C
      = [new_VideoGame ''Doom'' (Finite 1993)]"
    by (simp add: example_C_def new_VideoGame_def)
  have fe: "filter (\<lambda>v. strict_eq (releaseDate v) (Finite 1994)) example_C
      = [new_VideoGame ''Doom II'' (Finite 1994)]"
    by (simp add: example_C_def new_VideoGame_def)
  have fn: "filter (\<lambda>v. less_than (Finite 1994) (releaseDate v)) example_C
      = [new_VideoGame ''Chrono Trigger'' (Finite 1995)]"
    by (simp add: example_C_def new_VideoGame_def)
  have older: "getAllGamesOlderThanAge 2 (Finite 1994) ?h
      = Inr (3, ?h @ [Array [new_VideoGame ''Doom'' (Finite 1993)]])"
    using getAllGamesOlderThanAge_filter [OF a, of "Finite 1994"] fo by simp
  have same: "getAllGamesByAge 2 (Finite 1994) ?h
      = Inr (3, ?h @ [Array [new_VideoGame ''Doom II'' (Finite 1994)]])"
    using getAllGamesByAge_filter [OF a, of "Finite 1994"] fe by simp
  have newer: "getAllGamesNewerThanAge 2 (Finite 1994) ?h
      = Inr (3, ?h @ [Array [new_VideoGame ''Chrono Trigger'' (Finite 1995)]])"
    using getAllGamesNewerThanAge_filter [OF a, of "Finite 1994"] fn by simp
  from queries_partition [OF a b, of 1994]
  obtain Ro Re Rn where
    "getAllGamesOlderThanAge 2 (Finite (of_int 1994)) ?h = Inr (length ?h, ?h @ [Array Ro])"
    "getAllGamesByAge 2 (Finite (of_int 1994)) ?h = Inr (length ?h, ?h @ [Array Re])"
    "getAllGamesNewerThanAge 2 (Finite (of_int 1994)) ?h = Inr (length ?h, ?h @ [Array Rn])"
    and m: "mset Ro + mset Re + mset Rn = mset example_C"
    by blast
  with older same newer
  have "Ro = [new_VideoGame ''Doom'' (Finite 1993)]"
    "Re = [new_VideoGame ''Doom II'' (Finite 1994)]"
    "Rn = [new_VideoGame ''Chrono Trigger'' (Finite 1995)]"
    by simp_all
  with m have "mset [new_VideoGame ''Doom'' (Finite 1993)]
      + mset [new_VideoGame ''Doom II'' (Finite 1994)]
      + mset [new_VideoGame ''Chrono Trigger'' (Finite 1995)] = mset example_C"
    by simp
  with a b' older same newer show ?thesis by simp
qed

text \<open>
  C8. A store holds the array \<open>C\<close>. Whatever number \<open>age\<close> (NaN and the infinities
  included) and whatever text \<open>n\<close> is passed, each of the four queries returns a new array
  and none throws; when \<open>C\<close> is empty the array returned is empty.
\<close>

theorem queries_never_throw:
  assumes "collection_of h this = Some C"
  shows "(\<exists>R. getAllGamesByAge this age h = Inr (length h, h @ [Array R]) \<and> (C = [] \<longrightarrow> R = []))
    \<and> (\<exists>R. getAllGamesByName this n h = Inr (length h, h @ [Array R]) \<and> (C = [] \<longrightarrow> R = []))
    \<and> (\<exists>R. getAllGamesOlderThanAge this age h = Inr (length h, h @ [Array R])
          \<and> (C = [] \<longrightarrow> R = []))
    \<and> (\<exists>R. getAllGamesNewerThanAge this age h = Inr (length h, h @ [Array R])
          \<and> (C = [] \<longrightarrow> R = []))"
proof (intro conjI)
  show "\<exists>R. getAllGamesByAge this age h = Inr (length h, h @ [Array R]) \<and> (C = [] \<longrightarrow> R = [])"
    using getAllGamesByAge_filter [OF assms, of age] by simp
  show "\<exists>R. getAllGamesByName this n h = Inr (length h, h @ [Array R]) \<and> (C = [] \<longrightarrow> R = [])"
    using getAllGamesByName_filter [OF assms, of n] by simp
  show "\<exists>R. getAllGamesOlderThanAge this age h = Inr (length h, h @ [Array R])
      \<and> (C = [] \<longrightarrow> R = [])"
    using getAllGamesOlderThanAge_filter [OF assms, of age] by simp
  show "\<exists>R. getAllGamesNewerThanAge this age h = Inr (length h, h @ [Array R])
      \<and> (C = [] \<longrightarrow> R = [])"
    using getAllGamesNewerThanAge_filter [OF assms, of age] by simp
qed

theorem queries_never_throw_witness:
  "collection_of [Array [], VideoGameStore 0] 1 = Some []
   \<and> getAllGamesByAge 1 NaN [Array [], VideoGameStore 0]
       = Inr (2, [Array [], VideoGameStore 0, Array []])
   \<and> getAllGamesByName 1 ''Doom'' [Array [], VideoGameStore 0]
       = Inr (2, [Array [], VideoGameStore 0, Array []])
   \<and> getAllGamesOlderThanAge 1 NaN [Array [], VideoGameStore 0]
       = Inr (2, [Array [], VideoGameStore 0, Array []])
   \<and> getAllGamesNewerThanAge 1 NaN [Array [], VideoGameStore 0]
       = Inr (2, [Array [], VideoGameStore 0, Array []])"
proof -
  have a: "collection_of [Array [], VideoGameStore 0] 1 = Some []"
    by (simp add: collection_of_def lookup_def)
  from queries_never_throw [OF a, of NaN "''Doom''"] a show ?thesis by simp
qed

text \<open>
  C7. A store holds the array \<open>C\<close>, and any sequence \<open>qs\<close> of the four queries, with any
  arguments, is run on it. No call throws. The heap after the run is the heap before it
  followed by one new array per call, so every object that existed, the store and its
  array among them, is as it was: the field \<open>videoGames\<close> of the store is unchanged and
  still refers to \<open>C\<close>, and this holds after every call of the sequence, not only the
  last. The reference a call returns denoted no object before the run, the references
  returned are distinct, and the array a call returns holds the records of \<open>C\<close> its
  callback accepts, in the order of \<open>C\<close> and each as often as in \<open>C\<close>.
\<close>

theorem queries_do_not_mutate:
  assumes "collection_of h this = Some C"
  shows "\<exists>rs h'. calls this qs h = Inr (rs, h')
    \<and> h' = h @ map (\<lambda>q. Array (filter (asked q) C)) qs
    \<and> rs = [length h ..< length h + length qs]
    \<and> prefix h h'
    \<and> lookup h' this = lookup h this
    \<and> collection_of h' this = Some C
    \<and> (\<forall>k \<le> length qs. \<exists>rs1 h1. calls this (take k qs) h = Inr (rs1, h1)
          \<and> prefix h h1 \<and> lookup h1 this = lookup h this \<and> collection_of h1 this = Some C)
    \<and> distinct rs
    \<and> (\<forall>i < length qs. lookup h (rs ! i) = None
          \<and> (\<exists>R. lookup h' (rs ! i) = Some (Array R)
                \<and> R = filter (asked (qs ! i)) C
                \<and> subseq R C
                \<and> (\<forall>v. count_list R v = (if asked (qs ! i) v then count_list C v else 0))))"
proof -
  let ?new = "\<lambda>qs. map (\<lambda>q. Array (filter (asked q) C)) qs"
  let ?rs = "[length h ..< length h + length qs]"
  let ?h' = "h @ ?new qs"
  from assms obtain a where
    store: "lookup h this = Some (VideoGameStore a)" and array: "lookup h a = Some (Array C)"
    by (rule collection_ofD)
  have run: "calls this qs h = Inr (?rs, ?h')"
    using assms by (rule calls_eq)
  have pre: "prefix h ?h'" by simp
  have same: "lookup ?h' this = lookup h this"
    using store by (simp add: lookup_append)
  have held: "collection_of ?h' this = Some C"
    using assms by (rule collection_of_append)
  have each: "\<forall>k \<le> length qs. \<exists>rs1 h1. calls this (take k qs) h = Inr (rs1, h1)
      \<and> prefix h h1 \<and> lookup h1 this = lookup h this \<and> collection_of h1 this = Some C"
  proof (intro allI impI)
    fix k
    assume "k \<le> length qs"
    have "calls this (take k qs) h
        = Inr ([length h ..< length h + length (take k qs)], h @ ?new (take k qs))"
      using assms by (rule calls_eq)
    moreover have "prefix h (h @ ?new (take k qs))" by simp
    moreover have "lookup (h @ ?new (take k qs)) this = lookup h this"
      using store by (simp add: lookup_append)
    moreover have "collection_of (h @ ?new (take k qs)) this = Some C"
      using assms by (rule collection_of_append)
    ultimately show "\<exists>rs1 h1. calls this (take k qs) h = Inr (rs1, h1)
        \<and> prefix h h1 \<and> lookup h1 this = lookup h this \<and> collection_of h1 this = Some C"
      by blast
  qed
  have dist: "distinct ?rs" by simp
  have results: "\<forall>i < length qs. lookup h (?rs ! i) = None
      \<and> (\<exists>R. lookup ?h' (?rs ! i) = Some (Array R)
            \<and> R = filter (asked (qs ! i)) C
            \<and> subseq R C
            \<and> (\<forall>v. count_list R v = (if asked (qs ! i) v then count_list C v else 0)))"
  proof (intro allI impI)
    fix i
    assume i: "i < length qs"
    then have r: "?rs ! i = length h + i" by simp
    have fresh: "lookup h (?rs ! i) = None"
      unfolding r by (rule lookup_None) simp
    have there: "lookup ?h' (?rs ! i) = Some (Array (filter (asked (qs ! i)) C))"
      unfolding r using i by (simp add: lookup_def)
    have sub: "subseq (filter (asked (qs ! i)) C) C" by (rule subseq_filter_left)
    have cnt: "\<forall>v. count_list (filter (asked (qs ! i)) C) v
        = (if asked (qs ! i) v then count_list C v else 0)"
      by (simp add: count_list_filter)
    from fresh there sub cnt
    show "lookup h (?rs ! i) = None
      \<and> (\<exists>R. lookup ?h' (?rs ! i) = Some (Array R)
            \<and> R = filter (asked (qs ! i)) C
            \<and> subseq R C
            \<and> (\<forall>v. count_list R v = (if asked (qs ! i) v then count_list C v else 0)))"
      by blast
  qed
  show ?thesis
    apply (rule exI [of _ ?rs])
    apply (rule exI [of _ ?h'])
    apply (intro conjI)
            apply (rule run)
           apply (rule refl)
          apply (rule refl)
         apply (rule pre)
        apply (rule same)
       apply (rule held)
      apply (rule each)
     apply (rule dist)
    apply (rule results)
    done
qed

theorem queries_do_not_mutate_witness:
  "collection_of [Array example_C, Array [], VideoGameStore 0] 2 = Some example_C
   \<and> calls 2 [ByAge (Finite 1994), ByName ''Doom'', OlderThanAge NaN, NewerThanAge (Finite 1993)]
        [Array example_C, Array [], VideoGameStore 0]
     = Inr ([3, 4, 5, 6],
            [Array example_C, Array [], VideoGameStore 0,
             Array [new_VideoGame ''Doom II'' (Finite 1994)],
             Array [new_VideoGame ''Doom'' (Finite 1993)],
             Array [],
             Array [new_VideoGame ''Chrono Trigger'' (Finite 1995),
                    new_VideoGame ''Doom II'' (Finite 1994)]])
   \<and> collection_of
        [Array example_C, Array [], VideoGameStore 0,
         Array [new_VideoGame ''Doom II'' (Finite 1994)],
         Array [new_VideoGame ''Doom'' (Finite 1993)],
         Array [],
         Array [new_VideoGame ''Chrono Trigger'' (Finite 1995),
                new_VideoGame ''Doom II'' (Finite 1994)]] 2 = Some example_C"
proof -
  let ?h = "[Array example_C, Array [], VideoGameStore 0]"
  let ?qs = "[ByAge (Finite 1994), ByName ''Doom'', OlderThanAge NaN, NewerThanAge (Finite 1993)]"
  let ?h' = "[Array example_C, Array [], VideoGameStore 0,
         Array [new_VideoGame ''Doom II'' (Finite 1994)],
         Array [new_VideoGame ''Doom'' (Finite 1993)],
         Array [],
         Array [new_VideoGame ''Chrono Trigger'' (Finite 1995),
                new_VideoGame ''Doom II'' (Finite 1994)]]"
  note a = example_store_holds
  from queries_do_not_mutate [OF a, of ?qs]
  obtain rs h' where run: "calls 2 ?qs ?h = Inr (rs, h')"
    and h': "h' = ?h @ map (\<lambda>q. Array (filter (asked q) example_C)) ?qs"
    and rs: "rs = [length ?h ..< length ?h + length ?qs]"
    and held: "collection_of h' 2 = Some example_C"
    by blast
  have f:
    "filter (asked (ByAge (Finite 1994))) example_C = [new_VideoGame ''Doom II'' (Finite 1994)]"
    "filter (asked (ByName ''Doom'')) example_C = [new_VideoGame ''Doom'' (Finite 1993)]"
    "filter (asked (OlderThanAge NaN)) example_C = []"
    "filter (asked (NewerThanAge (Finite 1993))) example_C
       = [new_VideoGame ''Chrono Trigger'' (Finite 1995), new_VideoGame ''Doom II'' (Finite 1994)]"
    by (simp_all add: example_C_def new_VideoGame_def)
  have "h' = ?h'" unfolding h' by (simp add: f)
  moreover have "rs = [3, 4, 5, 6]" unfolding rs by (simp add: upt_rec)
  ultimately show ?thesis using run held a by simp
qed

section \<open>The queries of BetterVideoGameStore\<close>

text \<open>
  C9. The array \<open>c\<close> holds \<open>C\<close>. An instance of BetterVideoGameStore is constructed with
  the array \<open>c0\<close>; a second one is constructed with the array \<open>c0'\<close>, either instead of
  the first (on the heap the first was constructed on) or after it (on the heap the first
  has left). Each of the four inherited queries, called with the argument array \<open>c\<close> and
  the same target, returns a new array with the same records \<open>R\<close> whichever instance it
  is called on and whichever of these heaps it runs on: the records of \<open>C\<close> the callback
  accepts. The array an instance was constructed with has no effect on the result.
\<close>

theorem BetterVideoGameStore_queries_ignore_field:
  assumes "lookup h c = Some (Array C)"
    and "new_BetterVideoGameStore c0 h = (this, h1)"
    and "new_BetterVideoGameStore c0' h = (this', h1')"
    and "new_BetterVideoGameStore c0' h1 = (this'', h2)"
  shows "(\<exists>R. R = filter (\<lambda>v. strict_eq (releaseDate v) age) C
          \<and> VideoGameStoreGetter_getAllGamesByAge this c age h1
              = Inr (length h1, h1 @ [Array R])
          \<and> VideoGameStoreGetter_getAllGamesByAge this' c age h1'
              = Inr (length h1', h1' @ [Array R])
          \<and> VideoGameStoreGetter_getAllGamesByAge this c age h2
              = Inr (length h2, h2 @ [Array R])
          \<and> VideoGameStoreGetter_getAllGamesByAge this'' c age h2
              = Inr (length h2, h2 @ [Array R]))
    \<and> (\<exists>R. R = filter (\<lambda>v. name v = n) C
          \<and> VideoGameStoreGetter_getAllGamesByName this c n h1
              = Inr (length h1, h1 @ [Array R])
          \<and> VideoGameStoreGetter_getAllGamesByName this' c n h1'
              = Inr (length h1', h1' @ [Array R])
          \<and> VideoGameStoreGetter_getAllGamesByName this c n h2
              = Inr (length h2, h2 @ [Array R])
          \<and> VideoGameStoreGetter_getAllGamesByName this'' c n h2
              = Inr (length h2, h2 @ [Array R]))
    \<and> (\<exists>R. R = filter (\<lambda>v. less_than (releaseDate v) age) C
          \<and> VideoGameStoreGetter_getAllGamesOlderThanAge this c age h1
              = Inr (length h1, h1 @ [Array R])
          \<and> VideoGameStoreGetter_getAllGamesOlderThanAge this' c age h1'
              = Inr (length h1', h1' @ [Array R])
          \<and> VideoGameStoreGetter_getAllGamesOlderThanAge this c age h2
              = Inr (length h2, h2 @ [Array R])
          \<and> VideoGameStoreGetter_getAllGamesOlderThanAge this'' c age h2
              = Inr (length h2, h2 @ [Array R]))
    \<and> (\<exists>R. R = filter (\<lambda>v. less_than age (releaseDate v)) C
          \<and> VideoGameStoreGetter_getAllGamesNewerThanAge this c age h1
              = Inr (length h1, h1 @ [Array R])
          \<and> VideoGameStoreGetter_getAllGamesNewerThanAge this' c age h1'
              = Inr (length h1', h1' @ [Array R])
          \<and> VideoGameStoreGetter_getAllGamesNewerThanAge this c age h2
              = Inr (length h2, h2 @ [Array R])
          \<and> VideoGameStoreGetter_getAllGamesNewerThanAge this'' c age h2
              = Inr (length h2, h2 @ [Array R]))"
proof -
  from assms(2) have h1: "h1 = h @ [Array [], BetterVideoGameStore c0]"
    by (simp add: new_BetterVideoGameStore_eq)
  from assms(3) have h1': "h1' = h @ [Array [], BetterVideoGameStore c0']"
    by (simp add: new_BetterVideoGameStore_eq)
  from assms(4) have h2: "h2 = h1 @ [Array [], BetterVideoGameStore c0']"
    by (simp add: new_BetterVideoGameStore_eq)
  have a: "lookup h1 c = Some (Array C)"
    unfolding h1 using assms(1) by (rule lookup_append)
  have a': "lookup h1' c = Some (Array C)"
    unfolding h1' using assms(1) by (rule lookup_append)
  have b: "lookup h2 c = Some (Array C)"
    unfolding h2 using a by (rule lookup_append)
  show ?thesis
    by (simp add: VideoGameStoreGetter_getAllGamesByAge_def
        VideoGameStoreGetter_getAllGamesByName_def
        VideoGameStoreGetter_getAllGamesOlderThanAge_def
        VideoGameStoreGetter_getAllGamesNewerThanAge_def
        getReleaseDate_def getName_def greater_than_def
        Array_filter_Array [OF a] Array_filter_Array [OF a'] Array_filter_Array [OF b])
qed

theorem BetterVideoGameStore_queries_ignore_field_witness:
  "lookup [Array example_C, Array [new_VideoGame ''Pong'' (Finite 1972)]] 0
     = Some (Array example_C)
   \<and> new_BetterVideoGameStore 0 [Array example_C, Array [new_VideoGame ''Pong'' (Finite 1972)]]
     = (3, [Array example_C, Array [new_VideoGame ''Pong'' (Finite 1972)],
            Array [], BetterVideoGameStore 0])
   \<and> new_BetterVideoGameStore 1 [Array example_C, Array [new_VideoGame ''Pong'' (Finite 1972)]]
     = (3, [Array example_C, Array [new_VideoGame ''Pong'' (Finite 1972)],
            Array [], BetterVideoGameStore 1])
   \<and> new_BetterVideoGameStore 1
        [Array example_C, Array [new_VideoGame ''Pong'' (Finite 1972)],
         Array [], BetterVideoGameStore 0]
     = (5, [Array example_C, Array [new_VideoGame ''Pong'' (Finite 1972)],
            Array [], BetterVideoGameStore 0, Array [], BetterVideoGameStore 1])
   \<and> VideoGameStoreGetter_getAllGamesByAge 3 0 (Finite 1994)
        [Array example_C, Array [new_VideoGame ''Pong'' (Finite 1972)],
         Array [], BetterVideoGameStore 0]
     = Inr (4, [Array example_C, Array [new_VideoGame ''Pong'' (Finite 1972)],
                Array [], BetterVideoGameStore 0,
                Array [new_VideoGame ''Doom II'' (Finite 1994)]])
   \<and> VideoGameStoreGetter_getAllGamesByAge 3 0 (Finite 1994)
        [Array example_C, Array [new_VideoGame ''Pong'' (Finite 1972)],
         Array [], BetterVideoGameStore 1]
     = Inr (4, [Array example_C, Array [new_VideoGame ''Pong'' (Finite 1972)],
                Array [], BetterVideoGameStore 1,
                Array [new_VideoGame ''Doom II'' (Finite 1994)]])
   \<and> VideoGameStoreGetter_getAllGamesByAge 5 0 (Finite 1994)
        [Array example_C, Array [new_VideoGame ''Pong'' (Finite 1972)],
         Array [], BetterVideoGameStore 0, Array [], BetterVideoGameStore 1]
     = Inr (6, [Array example_C, Array [new_VideoGame ''Pong'' (Finite 1972)],
                Array [], BetterVideoGameStore 0, Array [], BetterVideoGameStore 1,
                Array [new_VideoGame ''Doom II'' (Finite 1994)]])"
proof -
  let ?h = "[Array example_C, Array [new_VideoGame ''Pong'' (Finite 1972)]]"
  let ?h1 = "?h @ [Array [], BetterVideoGameStore 0]"
  let ?h1' = "?h @ [Array [], BetterVideoGameStore 1]"
  let ?h2 = "?h1 @ [Array [], BetterVideoGameStore 1]"
  have a: "lookup ?h 0 = Some (Array example_C)"
    by (simp add: lookup_def)
  have b: "new_BetterVideoGameStore 0 ?h = (3, ?h1)"
    by (simp add: new_BetterVideoGameStore_eq)
  have b': "new_BetterVideoGameStore 1 ?h = (3, ?h1')"
    by (simp add: new_BetterVideoGameStore_eq)
  have b'': "new_BetterVideoGameStore 1 ?h1 = (5, ?h2)"
    by (simp add: new_BetterVideoGameStore_eq)
  from BetterVideoGameStore_queries_ignore_field [OF a b b' b'', of "Finite 1994"]
  obtain R where
    f: "R = filter (\<lambda>v. strict_eq (releaseDate v) (Finite 1994)) example_C"
    and r: "VideoGameStoreGetter_getAllGamesByAge 3 0 (Finite 1994) ?h1
        = Inr (length ?h1, ?h1 @ [Array R])"
    and r': "VideoGameStoreGetter_getAllGamesByAge 3 0 (Finite 1994) ?h1'
        = Inr (length ?h1', ?h1' @ [Array R])"
    and r'': "VideoGameStoreGetter_getAllGamesByAge 5 0 (Finite 1994) ?h2
        = Inr (length ?h2, ?h2 @ [Array R])"
    by blast
  have "R = [new_VideoGame ''Doom II'' (Finite 1994)]"
    unfolding f by (simp add: example_C_def new_VideoGame_def)
  with r r' r'' a b b' b'' show ?thesis by simp
qed

section \<open>Plant, Human and LivingBeing\<close>

text \<open>
  C10. For every plant, whatever name, age and colour it was constructed with, and
  whatever the console holds, a call of \<open>breathe()\<close> throws an Error with the message
  "I don't breathe" and so does not return. A call of \<open>breathe()\<close> on an instance of
  LivingBeing or of Human, which inherits the method, returns after writing
  "I'm breathing" to the console; the method of LivingBeing does so on any instance it
  is run on.
\<close>

theorem Plant_breathe_throws:
  "breathe (A_Plant (new_Plant n a c)) out = Inl (Error ''I don't breathe'')
   \<and> breathe (A_Plant p) out = Inl (Error ''I don't breathe'')
   \<and> breathe (A_LivingBeing (new_LivingBeing n a)) out = Inr (out @ [''I'm breathing''])
   \<and> breathe (A_LivingBeing b) out = Inr (out @ [''I'm breathing''])
   \<and> breathe (A_Human (new_Human n a j)) out = Inr (out @ [''I'm breathing''])
   \<and> breathe (A_Human u) out = Inr (out @ [''I'm breathing''])
   \<and> LivingBeing_breathe x out = Inr (out @ [''I'm breathing''])"
  by (simp add: Plant_breathe_def LivingBeing_breathe_def console_log_def)

section \<open>CorrectGentleman and its student\<close>

text \<open>
  C3. Whatever name \<open>n\<close> and whatever student \<open>s\<close> is passed to the constructor of
  CorrectGentleman, on whatever heap, the object constructed has the name \<open>n\<close> and, as its
  student, a reference that denoted no object before the call (so it is not \<open>s\<close>, nor any
  other object that existed) and now denotes an instance of the base class Student. A call
  of \<open>teach()\<close> therefore writes "I'm learning", the line of Student, whatever the
  class of \<open>s\<close>. The statements at the end of SOLID.ts, which pass a CorrectJavascriptStudent,
  write "I'm learning" and nothing else, although \<open>learn()\<close> on the student they pass
  would have written "I'm learning Javascript".
\<close>

theorem CorrectGentleman_discards_student:
  "new_CorrectGentleman n s h = (length h + 1, h @ [Student, CorrectGentleman n (length h)])
   \<and> lookup h (length h) = None
   \<and> (case new_CorrectGentleman n s h of
         (this, h') \<Rightarrow> lookup h' this = Some (CorrectGentleman n (length h))
           \<and> lookup h' (length h) = Some Student
           \<and> teach this h' out = Inr (out @ [''I'm learning'']))
   \<and> main_program = Inr [''I'm learning'']
   \<and> learn 1 [Student, CorrectJavascriptStudent, Student, CorrectGentleman ''Alan'' 2] []
       = Inr [''I'm learning Javascript'']"
proof -
  have ctor: "\<And>n s h. new_CorrectGentleman n s h
      = (length h + 1, h @ [Student, CorrectGentleman n (length h)])"
    by (simp add: new_CorrectGentleman_def new_Student_def alloc_def)
  have fresh: "lookup h (length h) = None"
    by (simp add: lookup_def)
  have after: "\<And>n h out. teach (length h + 1) (h @ [Student, CorrectGentleman n (length h)]) out
      = Inr (out @ [''I'm learning''])"
    by (simp add: teach_def learn_def lookup_def nth_append Student_learn_def console_log_def)
  have obj: "lookup (h @ [Student, CorrectGentleman n (length h)]) (length h + 1)
      = Some (CorrectGentleman n (length h))"
    by (simp add: lookup_def nth_append)
  have stu: "lookup (h @ [Student, CorrectGentleman n (length h)]) (length h) = Some Student"
    by (simp add: lookup_def nth_append)
  have prog: "main_program = Inr [''I'm learning'']"
    unfolding main_program_def new_Student_def new_CorrectJavascriptStudent_def alloc_def
    using after [of "[Student, CorrectJavascriptStudent]" "''Alan''" "[]"]
    by (simp add: ctor)
  have other: "learn 1 [Student, CorrectJavascriptStudent, Student, CorrectGentleman ''Alan'' 2] []
       = Inr [''I'm learning Javascript'']"
    by (simp add: learn_def lookup_def CorrectJavascriptStudent_learn_def console_log_def)
  show ?thesis
    using fresh after [of h n out] obj stu prog other by (simp add: ctor)
qed

end
